theory Spec2Isabelle
  imports Complex_Main "HOL-Library.Sublist"
begin

section \<open>JavaScript values as the client code reads them\<close>

text \<open>
  The client is JavaScript: a property of an object fetched from the server holds a value
  of the type the data model gives it, or is \<^verbatim>\<open>undefined\<close> (the property is missing) or
  \<^verbatim>\<open>null\<close>. The three cases are kept apart because the code tells them apart
  (\<^verbatim>\<open>x || d\<close>, \<^verbatim>\<open>x === s\<close>, a template literal).

  Strings are \<^typ>\<open>string\<close>: byte lists holding the UTF-8 encoding of the JavaScript
  string. Equality of two well-formed strings is equality of their encodings, and the
  characters the code inspects (the dot, the comma, the double quote, the newline, the
  ASCII letters) are single bytes that never occur inside the encoding of another
  character.

  Numbers are rationals: every finite double is one. The product in the percentage of
  the CSV export is rounded to a double as the engine rounds it (\<open>to_double\<close> below);
  the sum and the quotient of the dashboard's average are exact here.
\<close>

datatype 'a jsfield = Undefined | Null | Val 'a

text \<open>\<^verbatim>\<open>x || d\<close> for a string property: the empty string is falsy, as are undefined and null.\<close>

definition str_or :: "string jsfield \<Rightarrow> string \<Rightarrow> string" where
  "str_or x d = (case x of Val s \<Rightarrow> (if s = [] then d else s) | _ \<Rightarrow> d)"

text \<open>\<^verbatim>\<open>x || d\<close> for numeric properties: zero is falsy.\<close>

definition int_or :: "int jsfield \<Rightarrow> int \<Rightarrow> int" where
  "int_or x d = (case x of Val n \<Rightarrow> (if n = 0 then d else n) | _ \<Rightarrow> d)"

definition num_or :: "rat jsfield \<Rightarrow> rat \<Rightarrow> rat" where
  "num_or x d = (case x of Val q \<Rightarrow> (if q = 0 then d else q) | _ \<Rightarrow> d)"

text \<open>The condition of \<^verbatim>\<open>x ? a : b\<close> for a boolean property.\<close>

definition truthy_flag :: "bool jsfield \<Rightarrow> bool" where
  "truthy_flag x = (case x of Val b \<Rightarrow> b | _ \<Rightarrow> False)"

text \<open>\<^verbatim>\<open>x > 0\<close> for a numeric property: undefined converts to NaN and null to 0, so both
  comparisons are false.\<close>

definition num_positive :: "rat jsfield \<Rightarrow> bool" where
  "num_positive x = (case x of Val q \<Rightarrow> 0 < q | _ \<Rightarrow> False)"

text \<open>The text a template literal \<^verbatim>\<open>`${x}`\<close> gives for a string property.\<close>

definition str_text :: "string jsfield \<Rightarrow> string" where
  "str_text x = (case x of Undefined \<Rightarrow> ''undefined'' | Null \<Rightarrow> ''null'' | Val s \<Rightarrow> s)"

text \<open>Decimal digits of an integer, as a template literal prints an integral number of
  magnitude up to \<open>2\<^sup>5\<^sup>3\<close> (all its digits are then significant).\<close>

fun show_nat :: "nat \<Rightarrow> string" where
  "show_nat n = (if n < 10 then [''0123456789'' ! n]
                 else show_nat (n div 10) @ [''0123456789'' ! (n mod 10)])"

definition show_int :: "int \<Rightarrow> string" where
  "show_int i = (if i < 0 then CHR ''-'' # show_nat (nat (- i)) else show_nat (nat i))"

text \<open>\<^verbatim>\<open>Math.round\<close>: the nearest integer, a tie going up.\<close>

definition math_round :: "rat \<Rightarrow> int" where
  "math_round q = \<lfloor>q + 1 / 2\<rfloor>"

text \<open>
  The double nearest to a rational, a tie going to the even significand: what the engine
  makes of the exact result of an arithmetic operation. The binade of a positive number
  is found by going down from the largest exponent, 1023, to the smallest one, -1022,
  which also holds the subnormal numbers; a significand has 53 bits. (A magnitude from
  \<open>2\<^sup>1\<^sup>0\<^sup>2\<^sup>4\<close> on, which the engine turns into an infinity, is outside this
  function's range.)
\<close>

definition round_half_even :: "rat \<Rightarrow> int" where
  "round_half_even x =
     (let n = \<lfloor>x\<rfloor>; r = x - of_int n
      in if r < 1 / 2 then n else if 1 / 2 < r then n + 1
         else if even n then n else n + 1)"

fun scan_exponent :: "nat \<Rightarrow> int \<Rightarrow> rat \<Rightarrow> int" where
  "scan_exponent 0 e x = e"
| "scan_exponent (Suc n) e x = (if 2 powi e \<le> x then e else scan_exponent n (e - 1) x)"

definition binary_exponent :: "rat \<Rightarrow> int" where
  "binary_exponent x = scan_exponent 2045 1023 x"

definition to_double :: "rat \<Rightarrow> rat" where
  "to_double x =
     (let ulp = 2 powi (binary_exponent \<bar>x\<bar> - 52)
      in of_int (round_half_even (x / ulp)) * ulp)"

text \<open>\<^verbatim>\<open>Array.prototype.join\<close> on an array of strings.\<close>

fun join :: "string \<Rightarrow> string list \<Rightarrow> string" where
  "join sep [] = []"
| "join sep [x] = x"
| "join sep (x # y # ys) = x @ sep @ join sep (y # ys)"

text \<open>\<^verbatim>\<open>String.prototype.split\<close> with a one-character separator: the pieces between the
  separators, one more than there are separators (so never an empty array).\<close>

fun split :: "char \<Rightarrow> string \<Rightarrow> string list" where
  "split c [] = [[]]"
| "split c (x # xs) =
     (if x = c then [] # split c xs
      else (case split c xs of p # ps \<Rightarrow> (x # p) # ps | [] \<Rightarrow> [[x]]))"

text \<open>\<^verbatim>\<open>Array.prototype.findIndex\<close>: the first position that satisfies the test, or -1.\<close>

fun findIndex :: "('a \<Rightarrow> bool) \<Rightarrow> 'a list \<Rightarrow> int" where
  "findIndex p [] = - 1"
| "findIndex p (x # xs) =
     (if p x then 0 else (let i = findIndex p xs in if i < 0 then - 1 else i + 1))"

section \<open>Match records and the results page\<close>

text \<open>
  A match record as \<^verbatim>\<open>GET /api/results/{id}\<close> delivers it, with the properties the
  results page reads. Names, steps, part numbers, quantities, units, vendors, tiers, tags
  and reasons are text; the five flags are booleans; the classification label is an
  integer; the confidence score is a number.
\<close>

record match_record =
  qa_material_name :: "string jsfield"
  qa_excerpt :: "string jsfield"
  qc_process_step :: "string jsfield"
  consumable_jigs_tools :: "bool jsfield"
  name_mismatch :: "bool jsfield"
  part_number :: "string jsfield"
  pn_mismatch :: "bool jsfield"
  quantity :: "string jsfield"
  unit_of_measure :: "string jsfield"
  obsolete_pn :: "bool jsfield"
  vendor_name :: "string jsfield"
  kit_available :: "bool jsfield"
  qa_confidence_level :: "string jsfield"
  qa_action_path :: "string jsfield"
  qa_classification_label :: "int jsfield"
  confidence_score :: "rat jsfield"
  supplier_description :: "string jsfield"
  supplier_part_number :: "string jsfield"
  reasoning :: "string jsfield"

text \<open>The object \<^verbatim>\<open>{}\<close>: every property missing.\<close>

definition empty_match :: match_record where
  "empty_match = \<lparr>qa_material_name = Undefined, qa_excerpt = Undefined,
     qc_process_step = Undefined, consumable_jigs_tools = Undefined,
     name_mismatch = Undefined, part_number = Undefined, pn_mismatch = Undefined,
     quantity = Undefined, unit_of_measure = Undefined, obsolete_pn = Undefined,
     vendor_name = Undefined, kit_available = Undefined, qa_confidence_level = Undefined,
     qa_action_path = Undefined, qa_classification_label = Undefined,
     confidence_score = Undefined, supplier_description = Undefined,
     supplier_part_number = Undefined, reasoning = Undefined\<rparr>"

text \<open>The three action-path tags: the green, orange and red circle emoji
  (U+1F7E2, U+1F7E0, U+1F534), in UTF-8.\<close>

definition green_tag :: string where
  "green_tag = [CHR 0xF0, CHR 0x9F, CHR 0x9F, CHR 0xA2]"

definition amber_tag :: string where
  "amber_tag = [CHR 0xF0, CHR 0x9F, CHR 0x9F, CHR 0xA0]"

definition red_tag :: string where
  "red_tag = [CHR 0xF0, CHR 0x9F, CHR 0x94, CHR 0xB4]"

text \<open>The fetched results: \<^verbatim>\<open>results.matches || []\<close> (an array is truthy, also when
  empty).\<close>

record results =
  matches :: "match_record list jsfield"

definition matches_of :: "results \<Rightarrow> match_record list" where
  "matches_of r = (case matches r of Val ms \<Rightarrow> ms | _ \<Rightarrow> [])"

text \<open>\<^verbatim>\<open>matches.filter(m => m.qa_action_path === tag).length\<close>\<close>

definition greenCount :: "match_record list \<Rightarrow> nat" where
  "greenCount ms = length (filter (\<lambda>m. qa_action_path m = Val green_tag) ms)"

definition amberCount :: "match_record list \<Rightarrow> nat" where
  "amberCount ms = length (filter (\<lambda>m. qa_action_path m = Val amber_tag) ms)"

definition redCount :: "match_record list \<Rightarrow> nat" where
  "redCount ms = length (filter (\<lambda>m. qa_action_path m = Val red_tag) ms)"

text \<open>The view the table shows for the selected filter value.\<close>

definition filteredMatches :: "string \<Rightarrow> match_record list \<Rightarrow> match_record list" where
  "filteredMatches filterRAG ms =
     (if filterRAG = ''all'' then ms
      else filter (\<lambda>m.
             if filterRAG = ''green'' then qa_action_path m = Val green_tag
             else if filterRAG = ''amber'' then qa_action_path m = Val amber_tag
             else if filterRAG = ''red'' then qa_action_path m = Val red_tag
             else True) ms)"

text \<open>\<^verbatim>\<open>getActionPathIcon\<close>: the icon, the text and the style class shown for a tag; a tag
  that is none of the three, or missing, is shown as the amber one.\<close>

record action_path_icon =
  icon :: string
  text_label :: string
  class_name :: string

definition getActionPathIcon :: "string jsfield \<Rightarrow> action_path_icon" where
  "getActionPathIcon actionPath =
     (if actionPath = Val green_tag
        then \<lparr>icon = green_tag, text_label = ''Auto-Register'', class_name = ''text-green-600''\<rparr>
      else if actionPath = Val amber_tag
        then \<lparr>icon = amber_tag, text_label = ''Auto w/ Flag'', class_name = ''text-yellow-600''\<rparr>
      else if actionPath = Val red_tag
        then \<lparr>icon = red_tag, text_label = ''Human Intervention'', class_name = ''text-red-600''\<rparr>
      else \<lparr>icon = amber_tag, text_label = ''Auto w/ Flag'', class_name = ''text-yellow-600''\<rparr>)"

text \<open>\<^verbatim>\<open>getClassificationDescription\<close>: the description of a label, by lookup in the
  object \<^verbatim>\<open>descriptions\<close>; a label that is no key of it gets the fallback text.\<close>

definition descriptions :: "(int \<times> string) list" where
  "descriptions =
    [(1, ''Consumable/Jigs/Tools + PN + Qty''),
     (2, ''Consumable/Jigs/Tools + PN + Spec + Qty''),
     (3, ''Consumable/Jigs/Tools (no qty)''),
     (4, ''Consumable/Jigs/Tools (no Part Number)''),
     (5, ''No Consumable/Jigs/Tools Mentioned''),
     (6, ''Consumable/Jigs/Tools + Part Number mismatch''),
     (7, ''Consumable/Jigs/Tools + Obsolete Part Number''),
     (8, ''Ambiguous Consumable/Jigs/Tools Name''),
     (9, ''Vendor Name Only''),
     (10, ''Multiple Consumable/Jigs/Tools, no mapping''),
     (11, ''Pre-assembled kit mentioned''),
     (12, ''Work Instruction mentions Consumable/Jigs/Tools only''),
     (13, ''Vendor + Kit Mentioned (no PN)'')]"

definition getClassificationDescription :: "int \<Rightarrow> string" where
  "getClassificationDescription label =
     (case map_of descriptions label of Some d \<Rightarrow> d | None \<Rightarrow> ''Unknown Classification'')"

text \<open>The confidence cell of the classification table: the style class chosen by strict
  comparison of the tier, and the text \<^verbatim>\<open>match.qa_confidence_level || 'Medium'\<close>.\<close>

record table_cell =
  cell_class :: string
  cell_text :: string

definition confidence_cell :: "match_record \<Rightarrow> table_cell" where
  "confidence_cell m =
     \<lparr>cell_class =
        (if qa_confidence_level m = Val ''High'' then ''text-green-600''
         else if qa_confidence_level m = Val ''Medium'' then ''text-yellow-600''
         else ''text-red-600''),
      cell_text = str_or (qa_confidence_level m) ''Medium''\<rparr>"

section \<open>The CSV export\<close>

definition csvHeaders :: "string list" where
  "csvHeaders =
    [''S. No.'', ''Material Name'', ''QC Process / WI Step'', ''Consumable/Jigs/Tools'',
     ''Name Mismatch'', ''PN (Part Name)'', ''PN Mismatch'', ''Qty'', ''UoM'',
     ''Obsolete PN'', ''Vendor Name'', ''Kit Available'', ''AI Engine Processing'',
     ''Confidence Level'', ''Action Path (RAG)'', ''Classification Label'',
     ''Supplier Match'', ''Match Confidence'', ''Reason'']"

definition yes_no :: "bool jsfield \<Rightarrow> string" where
  "yes_no x = (if truthy_flag x then ''Yes'' else ''No'')"

text \<open>The cells of the row of one match, each as the text the template literal
  \<^verbatim>\<open>`"${cell}"`\<close> prints for it between the quotes. The confidence score is a double;
  its product with 100 is the double nearest to the exact product.\<close>

definition csvRow :: "nat \<Rightarrow> match_record \<Rightarrow> string list" where
  "csvRow index m =
    [show_nat (index + 1),
     str_or (qa_material_name m) [],
     str_or (qc_process_step m) [],
     yes_no (consumable_jigs_tools m),
     yes_no (name_mismatch m),
     str_or (part_number m) [],
     yes_no (pn_mismatch m),
     str_or (quantity m) [],
     str_or (unit_of_measure m) [],
     yes_no (obsolete_pn m),
     str_or (vendor_name m) [],
     yes_no (kit_available m),
     ''AI Processed'',
     str_or (qa_confidence_level m) ''Medium'',
     str_or (qa_action_path m) amber_tag,
     ''Label '' @ show_int (int_or (qa_classification_label m) 5),
     (if num_positive (confidence_score m) then str_text (supplier_description m)
      else ''No Match''),
     show_int (math_round (to_double (num_or (confidence_score m) 0 * 100))) @ ''%'',
     str_or (reasoning m) ''No reason provided'']"

definition csvRows :: "match_record list \<Rightarrow> string list list" where
  "csvRows ms = map (\<lambda>(index, m). csvRow index m) (enumerate 0 ms)"

text \<open>One line of the file: every cell between double quotes, the cells joined by
  commas. Nothing inside a cell is escaped.\<close>

definition quoted :: "string \<Rightarrow> string" where
  "quoted cell = CHR 0x22 # cell @ [CHR 0x22]"

definition csvLine :: "string list \<Rightarrow> string" where
  "csvLine row = join '','' (map quoted row)"

definition csvContent :: "match_record list \<Rightarrow> string" where
  "csvContent ms = join [CHR 0x0A] (map csvLine (csvHeaders # csvRows ms))"

text \<open>\<^verbatim>\<open>exportQAClassificationCSV\<close>: nothing is exported while the results are not loaded
  or carry no match array; otherwise the content of the downloaded file.\<close>

definition exportQAClassificationCSV :: "results option \<Rightarrow> string option" where
  "exportQAClassificationCSV res =
     (case res of
        None \<Rightarrow> None
      | Some r \<Rightarrow> (case matches r of Val ms \<Rightarrow> Some (csvContent ms) | _ \<Rightarrow> None))"

text \<open>A match record within the ranges of the data model: its classification label, when
  present, is one of 1 to 13, and its confidence score, when present, is a double from 0
  to 1.\<close>

definition in_data_model :: "match_record \<Rightarrow> bool" where
  "in_data_model m \<longleftrightarrow>
     (case qa_classification_label m of Val l \<Rightarrow> 1 \<le> l \<and> l \<le> 13 | _ \<Rightarrow> True)
     \<and> (case confidence_score m of
          Val q \<Rightarrow> to_double q = q \<and> 0 \<le> q \<and> q \<le> 1 | _ \<Rightarrow> True)"

text \<open>
  Reading the file back. The repository has no CSV reader; these two definitions follow
  the words of the specification ("re-parsing"): the file is cut into lines at the
  newlines, and a line is read as cells that each stand between two double quotes, with
  a comma after every cell but the last.
\<close>

datatype scan_state = Before_cell | In_cell | After_cell

fun scan_cells :: "scan_state \<Rightarrow> string \<Rightarrow> string list \<Rightarrow> string \<Rightarrow> string list option" where
  "scan_cells Before_cell cur acc [] = None"
| "scan_cells Before_cell cur acc (c # cs) =
     (if c = CHR 0x22 then scan_cells In_cell [] acc cs else None)"
| "scan_cells In_cell cur acc [] = None"
| "scan_cells In_cell cur acc (c # cs) =
     (if c = CHR 0x22 then scan_cells After_cell [] (acc @ [cur]) cs
      else scan_cells In_cell (cur @ [c]) acc cs)"
| "scan_cells After_cell cur acc [] = Some acc"
| "scan_cells After_cell cur acc (c # cs) =
     (if c = CHR '','' then scan_cells Before_cell [] acc cs else None)"

definition reparse_line :: "string \<Rightarrow> string list option" where
  "reparse_line l = scan_cells Before_cell [] [] l"

definition reparse_csv :: "string \<Rightarrow> string list option list" where
  "reparse_csv content = map reparse_line (split (CHR 0x0A) content)"

section \<open>The upload page\<close>

record js_file =
  name :: string

datatype toast = Toast_error string | Toast_success string

record upload_page =
  qaDocument :: "js_file option"
  supplierBom :: "js_file option"
  uploading :: bool
  toasts :: "toast list"

definition qaDocTypes :: "string list" where
  "qaDocTypes = [''.pdf'', ''.docx'', ''.doc'', ''.txt'']"

definition bomTypes :: "string list" where
  "bomTypes = [''.xlsx'', ''.xls'', ''.csv'']"

text \<open>\<^verbatim>\<open>toLowerCase\<close> on the bytes of a string: an ASCII capital becomes its small
  letter. A character outside ASCII stays outside the letters of the allowed extensions
  under JavaScript's case mapping too (its result is not ASCII, or is the letter k of the
  Kelvin sign or an i with a combining dot), so membership in the two lists above is the
  same.\<close>

definition toLowerCase_char :: "char \<Rightarrow> char" where
  "toLowerCase_char c =
     (case map_of (zip ''ABCDEFGHIJKLMNOPQRSTUVWXYZ'' ''abcdefghijklmnopqrstuvwxyz'') c of
        Some l \<Rightarrow> l | None \<Rightarrow> c)"

definition toLowerCase :: "string \<Rightarrow> string" where
  "toLowerCase s = map toLowerCase_char s"

text \<open>\<^verbatim>\<open>'.' + file.name.split('.').pop().toLowerCase()\<close>; \<^verbatim>\<open>split\<close> never gives an
  empty array, so \<^verbatim>\<open>pop\<close> gives its last piece.\<close>

definition fileExt :: "js_file \<Rightarrow> string" where
  "fileExt file = CHR ''.'' # toLowerCase (last (split (CHR ''.'') (name file)))"

definition handleQaDocumentSelect :: "js_file \<Rightarrow> upload_page \<Rightarrow> upload_page" where
  "handleQaDocumentSelect file st =
     (if fileExt file \<notin> set qaDocTypes
      then st\<lparr>toasts := toasts st @
             [Toast_error (''Invalid WI/QC document type. Please upload: ''
                           @ join '', '' qaDocTypes)]\<rparr>
      else st\<lparr>qaDocument := Some file,
              toasts := toasts st @ [Toast_success ''WI/QC document selected'']\<rparr>)"

definition handleSupplierBomSelect :: "js_file \<Rightarrow> upload_page \<Rightarrow> upload_page" where
  "handleSupplierBomSelect file st =
     (if fileExt file \<notin> set bomTypes
      then st\<lparr>toasts := toasts st @
             [Toast_error (''Invalid supplier BOM type. Please upload: ''
                           @ join '', '' bomTypes)]\<rparr>
      else st\<lparr>supplierBom := Some file,
              toasts := toasts st @ [Toast_success ''Item Master selected'']\<rparr>)"

text \<open>The final extension of a file name in the words of the specification: the part of
  the name from its last dot on, in small letters; a name without a dot has none.\<close>

definition final_extension :: "string \<Rightarrow> string option" where
  "final_extension n =
     (if CHR ''.'' \<in> set n
      then Some (CHR ''.'' # toLowerCase (last (split (CHR ''.'') n)))
      else None)"

section \<open>Workflows: the stage view and the dashboard\<close>

record workflow =
  workflow_id :: string
  status :: "string jsfield"
  progress :: "rat jsfield"
  current_stage :: "string jsfield"
  message :: "string jsfield"

record stage =
  key :: string
  stage_name :: string
  description :: string

definition stages :: "stage list" where
  "stages =
    [\<lparr>key = ''translation'', stage_name = ''Translation'',
      description = ''AI agent processing Japanese document''\<rparr>,
     \<lparr>key = ''extraction'', stage_name = ''Material Extraction with QA Classification'',
      description = ''AI agent extracting materials with QA classification (13 categories)''\<rparr>,
     \<lparr>key = ''supplier_bom'', stage_name = ''Supplier BOM Processing'',
      description = ''AI agent processing Excel/CSV data''\<rparr>,
     \<lparr>key = ''comparison'', stage_name = ''Smart Comparison with QA Integration'',
      description =
        ''AI agent matching QA materials with supplier BOM using classification''\<rparr>]"

text \<open>\<^verbatim>\<open>getStageStatus\<close> of the processing page; its first argument is the page's
  \<^verbatim>\<open>workflow\<close> state, null until a status has been loaded.\<close>

definition getStageStatus :: "workflow option \<Rightarrow> string \<Rightarrow> string" where
  "getStageStatus page_workflow stageKey =
     (case page_workflow of
        None \<Rightarrow> ''idle''
      | Some w \<Rightarrow>
          (let currentStageIndex = findIndex (\<lambda>s. Val (key s) = current_stage w) stages;
               stageIndex = findIndex (\<lambda>s. key s = stageKey) stages
           in if status w = Val ''error'' then ''error''
              else if status w = Val ''completed'' then ''completed''
              else if stageIndex < currentStageIndex then ''completed''
              else if stageIndex = currentStageIndex then ''processing''
              else ''idle''))"


text \<open>Division of numbers: a division by zero gives no number (NaN or an infinity in
  JavaScript), which is the result \<open>None\<close> here.\<close>

definition js_div :: "rat \<Rightarrow> rat \<Rightarrow> rat option" where
  "js_div a b = (if b = 0 then None else Some (a / b))"

text \<open>The dashboard's \<^verbatim>\<open>averageProgress\<close> over \<^verbatim>\<open>Object.values(workflows)\<close>;
  \<^verbatim>\<open>reduce\<close> with a start value is a left fold.\<close>

definition averageProgress :: "workflow list \<Rightarrow> rat option" where
  "averageProgress workflowsArray =
     (if length workflowsArray > 0
      then js_div (foldl (\<lambda>sum w. sum + num_or (progress w) 0) 0 workflowsArray)
                  (of_nat (length workflowsArray))
      else Some 0)"

section \<open>The WebSocket hook\<close>

text \<open>
  The state of \<^verbatim>\<open>useWebSocket\<close> as the processing page uses it: the two React states;
  the attempt counter \<^verbatim>\<open>reconnectAttemptsRef\<close>; the sockets that \<^verbatim>\<open>connect\<close> has
  created and whose close event has not come yet, each with its ready state; the socket
  in \<^verbatim>\<open>ws.current\<close>; the timeouts set and neither fired nor cleared, each with its
  delay in milliseconds; the timeout in \<^verbatim>\<open>reconnectTimeoutRef\<close>; the numbers the next
  socket and the next timeout get (timeout ids are positive, so a stored one is truthy);
  and the number of times a timeout has called \<^verbatim>\<open>connect\<close>.
\<close>

datatype ready_state = CONNECTING | OPEN | CLOSING

record ws_hook =
  isConnected :: bool
  ws_error :: "string option"
  reconnectAttempts :: nat
  sockets :: "(nat \<times> ready_state) list"
  ws_current :: "nat option"
  timeouts :: "(nat \<times> nat) list"
  reconnectTimeoutRef :: "nat option"
  next_socket :: nat
  next_timeout :: nat
  reconnects :: nat

definition drop_id :: "nat \<Rightarrow> (nat \<times> 'a) list \<Rightarrow> (nat \<times> 'a) list" where
  "drop_id k xs = filter (\<lambda>(i, x). i \<noteq> k) xs"

definition set_ready :: "nat \<Rightarrow> ready_state \<Rightarrow> (nat \<times> ready_state) list
    \<Rightarrow> (nat \<times> ready_state) list" where
  "set_ready k r xs = map (\<lambda>(i, x). if i = k then (i, r) else (i, x)) xs"

text \<open>\<^verbatim>\<open>connect\<close> creates a socket, stores it in \<^verbatim>\<open>ws.current\<close> and sets its four
  handlers. (The constructor throws only for a URL that is not well-formed, which the one
  built here is not.)\<close>

definition connect :: "ws_hook \<Rightarrow> ws_hook" where
  "connect st = st\<lparr>sockets := sockets st @ [(next_socket st, CONNECTING)],
                  ws_current := Some (next_socket st),
                  next_socket := next_socket st + 1\<rparr>"

definition onopen :: "ws_hook \<Rightarrow> ws_hook" where
  "onopen st = st\<lparr>isConnected := True, ws_error := None, reconnectAttempts := 0\<rparr>"

definition onerror :: "ws_hook \<Rightarrow> ws_hook" where
  "onerror st = st\<lparr>ws_error := Some ''WebSocket connection failed''\<rparr>"

definition onclose :: "ws_hook \<Rightarrow> ws_hook" where
  "onclose st =
     (let st' = st\<lparr>isConnected := False\<rparr>
      in if reconnectAttempts st' < 5
         then st'\<lparr>timeouts := timeouts st'
                       @ [(next_timeout st', 2 ^ reconnectAttempts st' * 1000)],
                  reconnectTimeoutRef := Some (next_timeout st'),
                  next_timeout := next_timeout st' + 1\<rparr>
         else st')"

text \<open>The callback of a timeout: it counts the attempt and connects again.\<close>

definition timeout_callback :: "ws_hook \<Rightarrow> ws_hook" where
  "timeout_callback st =
     connect (st\<lparr>reconnectAttempts := reconnectAttempts st + 1,
                 reconnects := reconnects st + 1\<rparr>)"

text \<open>The cleanup of the effect: it clears the timeout in \<^verbatim>\<open>reconnectTimeoutRef\<close> (to
  no effect when that one has fired) and closes the socket in \<^verbatim>\<open>ws.current\<close> (to no
  effect when that one has closed); the close event of the socket comes later.\<close>

definition cleanup :: "ws_hook \<Rightarrow> ws_hook" where
  "cleanup st =
     (let st' = (case reconnectTimeoutRef st of
                   None \<Rightarrow> st
                 | Some t \<Rightarrow> st\<lparr>timeouts := drop_id t (timeouts st)\<rparr>)
      in case ws_current st' of
           None \<Rightarrow> st'
         | Some s \<Rightarrow> st'\<lparr>sockets := set_ready s CLOSING (sockets st')\<rparr>)"

text \<open>
  The events of the hook after it is mounted. A socket that is connecting may open; a
  socket may report an error or close while its close event has not come; a timeout fires
  while it is set. The page renders again whenever one of its states or of the hook's
  states changes, and it passes a new \<^verbatim>\<open>onMessage\<close> function on every render, so
  \<^verbatim>\<open>connect\<close>, which depends on it, is new as well and the effect runs again: its
  cleanup, then \<^verbatim>\<open>connect\<close>. An event that cannot happen in a state has no successor.
\<close>

datatype ws_event = Opened nat | Errored nat | Closed nat | Timeout nat | Rerender

definition ws_step :: "ws_event \<Rightarrow> ws_hook \<Rightarrow> ws_hook option" where
  "ws_step e st =
     (case e of
        Opened s \<Rightarrow>
          (if (s, CONNECTING) \<in> set (sockets st)
           then Some (onopen (st\<lparr>sockets := set_ready s OPEN (sockets st)\<rparr>)) else None)
      | Errored s \<Rightarrow>
          (if s \<in> fst ` set (sockets st) then Some (onerror st) else None)
      | Closed s \<Rightarrow>
          (if s \<in> fst ` set (sockets st)
           then Some (onclose (st\<lparr>sockets := drop_id s (sockets st)\<rparr>)) else None)
      | Timeout t \<Rightarrow>
          (if t \<in> fst ` set (timeouts st)
           then Some (timeout_callback (st\<lparr>timeouts := drop_id t (timeouts st)\<rparr>))
           else None)
      | Rerender \<Rightarrow> Some (connect (cleanup st)))"

fun ws_run :: "ws_event list \<Rightarrow> ws_hook \<Rightarrow> ws_hook option" where
  "ws_run [] st = Some st"
| "ws_run (e # es) st = (case ws_step e st of None \<Rightarrow> None | Some st' \<Rightarrow> ws_run es st')"

text \<open>The hook once mounted: the effect has called \<^verbatim>\<open>connect\<close> a first time.\<close>

definition ws_mounted :: ws_hook where
  "ws_mounted = connect \<lparr>isConnected = False, ws_error = None, reconnectAttempts = 0,
     sockets = [], ws_current = None, timeouts = [], reconnectTimeoutRef = None,
     next_socket = 1, next_timeout = 1, reconnects = 0\<rparr>"

definition is_Opened :: "ws_event \<Rightarrow> bool" where
  "is_Opened e = (case e of Opened s \<Rightarrow> True | _ \<Rightarrow> False)"

text \<open>What holds of the hook as long as the effect does not run again: at most one socket
  or timeout is outstanding, the counter never passes 5, and a timeout is only set below
  5.\<close>

definition ws_inv :: "ws_hook \<Rightarrow> bool" where
  "ws_inv st \<longleftrightarrow> length (sockets st) + length (timeouts st) \<le> 1
     \<and> reconnectAttempts st \<le> 5
     \<and> (timeouts st = [] \<or> reconnectAttempts st < 5)"

section \<open>Classification labels and action paths\<close>

text \<open>
  Modelled from the spec: the lookup table from a classification label to its
  action-path tag. The extraction agent that assigns the tag is part of the backend,
  which is not among the sources; the table is the one of section 3 of the
  specification (the repository's README lists the same thirteen labels under the same
  three tags).
\<close>

definition label_action_paths :: "(int \<times> string) list" where
  "label_action_paths =
    [(1, green_tag), (2, green_tag),
     (3, amber_tag), (9, amber_tag), (11, amber_tag), (12, amber_tag),
     (4, red_tag), (5, red_tag), (6, red_tag), (7, red_tag), (8, red_tag),
     (10, red_tag), (13, red_tag)]"

section \<open>Filtering by action-path tag\<close>

lemma tags_distinct:
  "green_tag \<noteq> amber_tag" "green_tag \<noteq> red_tag" "amber_tag \<noteq> red_tag"
  by (simp_all add: green_tag_def amber_tag_def red_tag_def)

text \<open>
  Claim C8. The filtered view is a function of the fetched match list and the selected
  filter value alone: for \<^verbatim>\<open>all\<close> it is the whole list, for \<^verbatim>\<open>green\<close>, \<^verbatim>\<open>amber\<close> and
  \<^verbatim>\<open>red\<close> it is the matches whose \<^verbatim>\<open>qa_action_path\<close> is the tag of that name, in
  their original order. The match list is an argument that is read and never written,
  and no request is part of the computation.
\<close>

theorem filteredMatches_view:
  "filteredMatches ''all'' ms = ms
   \<and> filteredMatches ''green'' ms = filter (\<lambda>m. qa_action_path m = Val green_tag) ms
   \<and> filteredMatches ''amber'' ms = filter (\<lambda>m. qa_action_path m = Val amber_tag) ms
   \<and> filteredMatches ''red'' ms = filter (\<lambda>m. qa_action_path m = Val red_tag) ms
   \<and> subseq (filteredMatches filterRAG ms) ms"
  by (simp add: filteredMatches_def)

section \<open>The action-path counts\<close>

lemma counts_partition_tagged:
  "\<forall>m \<in> set ms. qa_action_path m \<in> {Val green_tag, Val amber_tag, Val red_tag}
   \<Longrightarrow> greenCount ms + amberCount ms + redCount ms = length ms"
  using tags_distinct
  by (induction ms) (auto simp: greenCount_def amberCount_def redCount_def)

text \<open>
  Claim C3 says that the green, amber and red counts of a fetched result set add up to
  the number of its match records. The counts compare \<^verbatim>\<open>qa_action_path\<close> strictly with
  the three tags, so they add up for a list in which every record carries one of them
  (\<open>counts_partition_tagged\<close>). A record without the property is counted under no
  tag, although the table row (\<^verbatim>\<open>getActionPathIcon\<close>) and the CSV export
  (\<^verbatim>\<open>match.qa_action_path || amber\<close>) both present it as amber: for the one-record
  list below the three counts are 0 and the length is 1.
\<close>

theorem untagged_match_is_not_counted:
  "greenCount [empty_match\<lparr>qa_material_name := Val ''bolt''\<rparr>]
     + amberCount [empty_match\<lparr>qa_material_name := Val ''bolt''\<rparr>]
     + redCount [empty_match\<lparr>qa_material_name := Val ''bolt''\<rparr>] = 0
   \<and> length [empty_match\<lparr>qa_material_name := Val ''bolt''\<rparr>] = 1
   \<and> icon (getActionPathIcon (qa_action_path (empty_match\<lparr>qa_material_name := Val ''bolt''\<rparr>)))
       = amber_tag
   \<and> csvRow 0 (empty_match\<lparr>qa_material_name := Val ''bolt''\<rparr>) ! 14 = amber_tag"
  by (simp add: greenCount_def amberCount_def redCount_def empty_match_def
      getActionPathIcon_def csvRow_def str_or_def)

section \<open>The confidence tier and its default\<close>

text \<open>
  Claim C7 as stated fails for a record whose \<^verbatim>\<open>qa_confidence_level\<close> is present and
  is the empty string: table and export show \<^verbatim>\<open>Medium\<close>, not the field's own value.
\<close>

theorem empty_confidence_level_counterexample:
  "qa_confidence_level (empty_match\<lparr>qa_confidence_level := Val []\<rparr>) = Val []
   \<and> cell_text (confidence_cell (empty_match\<lparr>qa_confidence_level := Val []\<rparr>)) = ''Medium''
   \<and> csvRow 0 (empty_match\<lparr>qa_confidence_level := Val []\<rparr>) ! 13 = ''Medium''
   \<and> ''Medium'' \<noteq> []"
  by (simp add: confidence_cell_def csvRow_def str_or_def)

text \<open>
  Claim C7, amended. The confidence cell of the classification table and the
  \<^verbatim>\<open>Confidence Level\<close> cell of the CSV export (column 14) carry the same text: the
  default \<^verbatim>\<open>Medium\<close> when \<^verbatim>\<open>qa_confidence_level\<close> is missing, null or the empty
  string, and the field's own value, unchanged, when it is a non-empty string.
\<close>

theorem confidence_level_default:
  "cell_text (confidence_cell m) = csvRow index m ! 13
   \<and> csvRow index m ! 13 =
       (case qa_confidence_level m of
          Undefined \<Rightarrow> ''Medium''
        | Null \<Rightarrow> ''Medium''
        | Val s \<Rightarrow> if s = [] then ''Medium'' else s)
   \<and> csvHeaders ! 13 = ''Confidence Level''"
  by (simp add: confidence_cell_def csvRow_def csvHeaders_def str_or_def split: jsfield.split)

section \<open>Selecting the files to upload\<close>

lemma selection_of_dotted_names:
  assumes "final_extension (name file) = Some e"
  shows "(e \<notin> set qaDocTypes \<longrightarrow>
            qaDocument (handleQaDocumentSelect file st) = qaDocument st
          \<and> supplierBom (handleQaDocumentSelect file st) = supplierBom st
          \<and> (\<exists>msg. toasts (handleQaDocumentSelect file st) = toasts st @ [Toast_error msg]))
       \<and> (e \<in> set qaDocTypes \<longrightarrow> qaDocument (handleQaDocumentSelect file st) = Some file)
       \<and> (e \<notin> set bomTypes \<longrightarrow>
            supplierBom (handleSupplierBomSelect file st) = supplierBom st
          \<and> qaDocument (handleSupplierBomSelect file st) = qaDocument st
          \<and> (\<exists>msg. toasts (handleSupplierBomSelect file st) = toasts st @ [Toast_error msg]))
       \<and> (e \<in> set bomTypes \<longrightarrow> supplierBom (handleSupplierBomSelect file st) = Some file)"
  using assms
  by (auto simp: final_extension_def fileExt_def handleQaDocumentSelect_def
      handleSupplierBomSelect_def split: if_splits)

text \<open>
  Claim C5 says that a file is accepted exactly when the final extension of its name, in
  small letters, is in the list of its slot, and that a rejected file leaves the selected
  files as they were. For a name with a dot the two handlers do so
  (\<open>selection_of_dotted_names\<close>). For a name without a dot they take the whole name
  as the extension: a file named \<^verbatim>\<open>pdf\<close>, which has no extension, is accepted as the
  QA document, and one named \<^verbatim>\<open>csv\<close> as the item list.
\<close>

theorem dotless_name_is_accepted:
  "final_extension ''pdf'' = None
   \<and> fileExt \<lparr>name = ''pdf''\<rparr> = ''.pdf''
   \<and> handleQaDocumentSelect \<lparr>name = ''pdf''\<rparr>
        \<lparr>qaDocument = None, supplierBom = None, uploading = False, toasts = []\<rparr>
      = \<lparr>qaDocument = Some \<lparr>name = ''pdf''\<rparr>, supplierBom = None, uploading = False,
         toasts = [Toast_success ''WI/QC document selected'']\<rparr>
   \<and> handleSupplierBomSelect \<lparr>name = ''csv''\<rparr>
        \<lparr>qaDocument = None, supplierBom = None, uploading = False, toasts = []\<rparr>
      = \<lparr>qaDocument = None, supplierBom = Some \<lparr>name = ''csv''\<rparr>, uploading = False,
         toasts = [Toast_success ''Item Master selected'']\<rparr>"
  by (simp add: final_extension_def fileExt_def handleQaDocumentSelect_def
      handleSupplierBomSelect_def qaDocTypes_def bomTypes_def toLowerCase_def
      toLowerCase_char_def)

section \<open>The stage view\<close>

text \<open>
  Claim C6 as stated fails for a workflow that has failed: its current stage is the
  second one, and the first stage is shown as \<^verbatim>\<open>error\<close>, not as completed.
\<close>

theorem getStageStatus_error_counterexample:
  "current_stage \<lparr>workflow_id = ''w1'', status = Val ''error'', progress = Val 25,
      current_stage = Val ''extraction'', message = Val ''failed''\<rparr> = Val (key (stages ! 1))
   \<and> getStageStatus (Some \<lparr>workflow_id = ''w1'', status = Val ''error'', progress = Val 25,
      current_stage = Val ''extraction'', message = Val ''failed''\<rparr>) (key (stages ! 0))
     = ''error''
   \<and> getStageStatus (Some \<lparr>workflow_id = ''w1'', status = Val ''error'', progress = Val 25,
      current_stage = Val ''extraction'', message = Val ''failed''\<rparr>) (key (stages ! 0))
     \<noteq> ''completed''"
  by (simp add: getStageStatus_def stages_def)

lemma below_four: "(i::nat) < 4 \<Longrightarrow> i = 0 \<or> i = 1 \<or> i = 2 \<or> i = 3"
  by arith

lemma stage_keys:
  "map key stages = [''translation'', ''extraction'', ''supplier_bom'', ''comparison'']"
  by (simp add: stages_def)

lemma findIndex_stage:
  "i < 4 \<Longrightarrow> findIndex (\<lambda>s. key s = key (stages ! i)) stages = int i"
  by (auto dest!: below_four simp: stages_def)

lemma getStageStatus_terminal:
  "status w = Val ''error'' \<Longrightarrow> getStageStatus (Some w) k = ''error''"
  "status w = Val ''completed'' \<Longrightarrow> getStageStatus (Some w) k = ''completed''"
  by (simp_all add: getStageStatus_def Let_def)

text \<open>
  Claim C6, amended. The stages of the view are translation, extraction, supplier_bom,
  comparison, in this order. For every workflow whose status is neither \<^verbatim>\<open>error\<close> nor
  \<^verbatim>\<open>completed\<close> and whose current stage is at position \<open>i\<close> of this order, every stage
  before \<open>i\<close> is shown as completed, the stage at \<open>i\<close> as processing and every stage
  after \<open>i\<close> as idle. (A failed workflow shows every stage as \<^verbatim>\<open>error\<close>, a completed
  one every stage as completed: \<open>getStageStatus_terminal\<close>.)
\<close>

theorem getStageStatus_while_processing:
  assumes "status w \<noteq> Val ''error''" and "status w \<noteq> Val ''completed''"
    and "i < 4" and "j < 4" and "current_stage w = Val (key (stages ! i))"
  shows "map key stages = [''translation'', ''extraction'', ''supplier_bom'', ''comparison'']
     \<and> getStageStatus (Some w) (key (stages ! j))
       = (if j < i then ''completed'' else if j = i then ''processing'' else ''idle'')"
proof -
  have cur: "findIndex (\<lambda>s. Val (key s) = current_stage w) stages = int i"
    using assms(3,5) findIndex_stage [of i] by simp
  have own: "findIndex (\<lambda>s. key s = key (stages ! j)) stages = int j"
    using assms(4) by (rule findIndex_stage)
  show ?thesis
    using assms(1,2) cur own by (simp add: getStageStatus_def stage_keys Let_def)
qed

theorem getStageStatus_while_processing_witness:
  "map (getStageStatus (Some \<lparr>workflow_id = ''w2'', status = Val ''processing'',
          progress = Val 50, current_stage = Val ''supplier_bom'', message = Undefined\<rparr>))
     [key (stages ! 0), key (stages ! 2), key (stages ! 3)]
   = [''completed'', ''processing'', ''idle'']"
proof -
  let ?w = "\<lparr>workflow_id = ''w2'', status = Val ''processing'',
          progress = Val 50, current_stage = Val ''supplier_bom'', message = Undefined\<rparr>"
  have a: "status ?w \<noteq> Val ''error''" and b: "status ?w \<noteq> Val ''completed''"
    and c: "current_stage ?w = Val (key (stages ! 2))"
    by (simp_all add: stages_def)
  have i: "(2::nat) < 4" and j0: "(0::nat) < 4" and j3: "(3::nat) < 4" by simp_all
  show ?thesis
    using getStageStatus_while_processing [OF a b i j0 c]
      getStageStatus_while_processing [OF a b i i c]
      getStageStatus_while_processing [OF a b i j3 c]
    by simp
qed

section \<open>The dashboard's average progress\<close>

lemma foldl_plus_sum_list:
  "foldl (\<lambda>sum w. sum + f w) a ws = a + sum_list (map f ws)"
  for a :: rat
  by (induction ws arbitrary: a) (simp_all add: add.assoc)

text \<open>
  Claim C9. The average progress always has a value: for no workflows it is 0, the
  division not being done, and for a non-empty list of workflows it is the sum of their
  progress values, a missing one counting as 0, divided by their number.
\<close>

theorem averageProgress_guarded:
  "averageProgress [] = Some 0
   \<and> (ws \<noteq> [] \<longrightarrow>
        averageProgress ws
          = Some (sum_list (map (\<lambda>w. num_or (progress w) 0) ws) / of_nat (length ws)))
   \<and> num_or Undefined 0 = 0 \<and> num_or Null 0 = 0"
  by (simp add: averageProgress_def js_div_def foldl_plus_sum_list num_or_def)

theorem averageProgress_guarded_witness:
  "averageProgress
       [\<lparr>workflow_id = ''a'', status = Val ''processing'', progress = Val 25,
          current_stage = Val ''extraction'', message = Undefined\<rparr>,
        \<lparr>workflow_id = ''b'', status = Val ''initialized'', progress = Undefined,
          current_stage = Undefined, message = Undefined\<rparr>] = Some (25 / 2)"
  using averageProgress_guarded [of
       "[\<lparr>workflow_id = ''a'', status = Val ''processing'', progress = Val 25,
          current_stage = Val ''extraction'', message = Undefined\<rparr>,
        \<lparr>workflow_id = ''b'', status = Val ''initialized'', progress = Undefined,
          current_stage = Undefined, message = Undefined\<rparr>]"]
  by (simp add: num_or_def)

section \<open>Labels and their action paths\<close>

lemma label_cases:
  "(l::int) \<in> {1..13} \<Longrightarrow> l = 1 \<or> l = 2 \<or> l = 3 \<or> l = 4 \<or> l = 5 \<or> l = 6 \<or> l = 7
     \<or> l = 8 \<or> l = 9 \<or> l = 10 \<or> l = 11 \<or> l = 12 \<or> l = 13"
  by (simp, arith)

lemma label_domain: "fst ` set label_action_paths = {1..13}"
proof
  show "fst ` set label_action_paths \<subseteq> {1..13}"
    by (simp add: label_action_paths_def)
  show "{1..13} \<subseteq> fst ` set label_action_paths"
  proof
    fix l :: int
    assume "l \<in> {1..13}"
    then have "l = 1 \<or> l = 2 \<or> l = 3 \<or> l = 4 \<or> l = 5 \<or> l = 6 \<or> l = 7
       \<or> l = 8 \<or> l = 9 \<or> l = 10 \<or> l = 11 \<or> l = 12 \<or> l = 13"
      by (rule label_cases)
    then show "l \<in> fst ` set label_action_paths"
      by (elim disjE) (simp_all add: label_action_paths_def)
  qed
qed

text \<open>
  Claim C1. The table gives every classification label from 1 to 13, and no other, exactly
  one action-path tag: green for 1 and 2, amber for 3, 9, 11 and 12, red for 4, 5, 6, 7,
  8, 10 and 13. The tag is one that \<^verbatim>\<open>getActionPathIcon\<close> shows as itself, and each of
  the thirteen labels has a description of its own in \<^verbatim>\<open>getClassificationDescription\<close>.
\<close>

theorem label_action_paths_total:
  "fst ` set label_action_paths = {1..13}
   \<and> (\<forall>l \<in> {1..13}.
     (\<exists>!t. (l, t) \<in> set label_action_paths)
     \<and> map_of label_action_paths l =
         Some (if l \<in> {1, 2} then green_tag
               else if l \<in> {3, 9, 11, 12} then amber_tag
               else red_tag)
     \<and> icon (getActionPathIcon (Val (the (map_of label_action_paths l))))
         = the (map_of label_action_paths l)
     \<and> getClassificationDescription l \<noteq> ''Unknown Classification'')"
proof (intro conjI ballI)
  show "fst ` set label_action_paths = {1..13}" by (rule label_domain)
next
  fix l :: int
  assume "l \<in> {1..13}"
  then have l: "l = 1 \<or> l = 2 \<or> l = 3 \<or> l = 4 \<or> l = 5 \<or> l = 6 \<or> l = 7
     \<or> l = 8 \<or> l = 9 \<or> l = 10 \<or> l = 11 \<or> l = 12 \<or> l = 13"
    by (rule label_cases)
  from l show "\<exists>!t. (l, t) \<in> set label_action_paths"
    by (elim disjE) (simp_all add: label_action_paths_def tags_distinct)
  from l show "map_of label_action_paths l =
         Some (if l \<in> {1, 2} then green_tag
               else if l \<in> {3, 9, 11, 12} then amber_tag
               else red_tag)"
    by (elim disjE) (simp_all add: label_action_paths_def)
  from l show "icon (getActionPathIcon (Val (the (map_of label_action_paths l))))
         = the (map_of label_action_paths l)"
    by (elim disjE) (simp_all add: label_action_paths_def getActionPathIcon_def)
  from l show "getClassificationDescription l \<noteq> ''Unknown Classification''"
    by (elim disjE) (simp_all add: getClassificationDescription_def descriptions_def)
qed

theorem label_action_paths_total_witness:
  "map_of label_action_paths 9 = Some amber_tag
   \<and> (\<exists>!t. (9, t) \<in> set label_action_paths)
   \<and> getClassificationDescription 9 = ''Vendor Name Only''"
proof -
  have "(9::int) \<in> {1..13}" by simp
  with label_action_paths_total have
    "(\<exists>!t. (9, t) \<in> set label_action_paths)
     \<and> map_of label_action_paths 9 =
         Some (if (9::int) \<in> {1, 2} then green_tag
               else if (9::int) \<in> {3, 9, 11, 12} then amber_tag
               else red_tag)"
    by blast
  then show ?thesis
    by (simp add: getClassificationDescription_def descriptions_def)
qed

section \<open>Lines and cells of the CSV export\<close>

lemma split_without_separator: "c \<notin> set p \<Longrightarrow> split c p = [p]"
  by (induction p) auto

lemma split_at_separator: "c \<notin> set p \<Longrightarrow> split c (p @ c # r) = p # split c r"
  by (induction p) auto

lemma split_join:
  "ps \<noteq> [] \<Longrightarrow> \<forall>p \<in> set ps. c \<notin> set p \<Longrightarrow> split c (join [c] ps) = ps"
proof (induction ps)
  case Nil
  then show ?case by simp
next
  case (Cons p ps)
  show ?case
  proof (cases ps)
    case Nil
    with Cons.prems show ?thesis by (simp add: split_without_separator)
  next
    case (Cons q qs)
    with Cons.prems Cons.IH show ?thesis by (simp add: split_at_separator)
  qed
qed

lemma join_chars:
  "c \<notin> set sep \<Longrightarrow> \<forall>x \<in> set xs. c \<notin> set x \<Longrightarrow> c \<notin> set (join sep xs)"
  by (induction sep xs rule: join.induct) auto

lemma csvLine_chars:
  "c \<noteq> CHR '','' \<Longrightarrow> c \<noteq> CHR 0x22 \<Longrightarrow> \<forall>cell \<in> set row. c \<notin> set cell
   \<Longrightarrow> c \<notin> set (csvLine row)"
  unfolding csvLine_def by (rule join_chars) (auto simp: quoted_def)

lemma scan_in_cell:
  "CHR 0x22 \<notin> set cell \<Longrightarrow>
   scan_cells In_cell cur acc (cell @ CHR 0x22 # rest)
     = scan_cells After_cell [] (acc @ [cur @ cell]) rest"
  by (induction cell arbitrary: cur) auto

lemma scan_line:
  "cells \<noteq> [] \<Longrightarrow> \<forall>cell \<in> set cells. CHR 0x22 \<notin> set cell \<Longrightarrow>
   scan_cells Before_cell cur acc (csvLine cells) = Some (acc @ cells)"
proof (induction cells arbitrary: cur acc)
  case Nil
  then show ?case by simp
next
  case (Cons x xs)
  show ?case
  proof (cases xs)
    case Nil
    with Cons.prems show ?thesis
      using scan_in_cell [of x "[]" acc "[]"] by (simp add: csvLine_def quoted_def)
  next
    case (Cons y ys)
    have "scan_cells Before_cell cur acc (csvLine (x # xs))
        = scan_cells In_cell [] acc (x @ CHR 0x22 # (CHR '','' # csvLine xs))"
      using Cons by (simp add: csvLine_def quoted_def)
    also have "\<dots> = scan_cells After_cell [] (acc @ [x]) (CHR '','' # csvLine xs)"
      using Cons.prems(2) scan_in_cell [of x "[]" acc] by simp
    also have "\<dots> = scan_cells Before_cell [] (acc @ [x]) (csvLine xs)"
      by simp
    also have "\<dots> = Some ((acc @ [x]) @ xs)"
      using Cons.prems(2) Cons by (intro Cons.IH) auto
    finally show ?thesis by simp
  qed
qed

lemma reparse_line_csvLine:
  "cells \<noteq> [] \<Longrightarrow> \<forall>cell \<in> set cells. CHR 0x22 \<notin> set cell \<Longrightarrow>
   reparse_line (csvLine cells) = Some cells"
  using scan_line [of cells "[]" "[]"] by (simp add: reparse_line_def)

lemma csvHeaders_plain:
  "\<forall>cell \<in> set csvHeaders. CHR 0x0A \<notin> set cell \<and> CHR 0x22 \<notin> set cell"
  by (simp add: csvHeaders_def)

lemma length_csvRows: "length (csvRows ms) = length ms"
  by (simp add: csvRows_def)

lemma nth_csvRows: "i < length ms \<Longrightarrow> csvRows ms ! i = csvRow i (ms ! i)"
  by (simp add: csvRows_def nth_enumerate_eq)

lemma csvRows_nonempty: "row \<in> set (csvRows ms) \<Longrightarrow> row \<noteq> []"
  by (auto simp: csvRows_def csvRow_def)

lemma floor_rat_numerals: "\<lfloor>(numeral a :: rat) / numeral b\<rfloor> = numeral a div numeral b"
  using floor_divide_of_int_eq [of "numeral a" "numeral b", where ?'a = rat] by simp

lemma csv_lines:
  assumes "\<forall>row \<in> set (csvRows ms). \<forall>cell \<in> set row. CHR 0x0A \<notin> set cell"
  shows "split (CHR 0x0A) (csvContent ms) = map csvLine (csvHeaders # csvRows ms)"
proof -
  have "\<forall>row \<in> set (csvHeaders # csvRows ms). \<forall>cell \<in> set row. CHR 0x0A \<notin> set cell"
    using assms csvHeaders_plain by simp
  then have "CHR 0x0A \<notin> set (csvLine row)" if "row \<in> set (csvHeaders # csvRows ms)" for row
    using that by (intro csvLine_chars) auto
  then have "\<forall>l \<in> set (map csvLine (csvHeaders # csvRows ms)). CHR 0x0A \<notin> set l"
    by auto
  then show ?thesis
    unfolding csvContent_def by (intro split_join) simp_all
qed

section \<open>Rounding to doubles\<close>

lemma scan_exponent_eq:
  "2 powi k \<le> x \<Longrightarrow> x < 2 powi (k + 1) \<Longrightarrow> k \<le> e \<Longrightarrow> e - int n \<le> k
   \<Longrightarrow> scan_exponent n e x = k"
proof (induction n arbitrary: e)
  case 0
  then show ?case by simp
next
  case (Suc n)
  show ?case
  proof (cases "2 powi e \<le> x")
    case True
    then have "(2::rat) powi e < 2 powi (k + 1)" using Suc.prems(2) by simp
    then have "e < k + 1"
      using power_int_increasing [of "k + 1" e "2::rat"] by (cases "e < k + 1") auto
    with Suc.prems(3) True show ?thesis by simp
  next
    case False
    then have "e \<noteq> k" using Suc.prems(1) by auto
    with Suc.prems have "scan_exponent n (e - 1) x = k"
      by (intro Suc.IH) auto
    with False show ?thesis by simp
  qed
qed

lemma binary_exponent_eq:
  "2 powi k \<le> x \<Longrightarrow> x < 2 powi (k + 1) \<Longrightarrow> - 1022 \<le> k \<Longrightarrow> k \<le> 1023
   \<Longrightarrow> binary_exponent x = k"
  unfolding binary_exponent_def by (rule scan_exponent_eq) simp_all

lemma to_double_eq:
  assumes "2 powi k \<le> \<bar>x\<bar>" and "\<bar>x\<bar> < 2 powi (k + 1)" and "- 1022 \<le> k" and "k \<le> 1023"
  shows "to_double x = of_int (round_half_even (x / 2 powi (k - 52))) * 2 powi (k - 52)"
proof -
  have "binary_exponent \<bar>x\<bar> = k" using assms by (rule binary_exponent_eq)
  then show ?thesis by (simp add: to_double_def Let_def)
qed

lemma to_double_zero: "to_double 0 = 0"
  by (simp add: to_double_def round_half_even_def Let_def)

lemma to_double_quarter: "to_double (1 / 4) = 1 / 4"
  by (subst to_double_eq [where k = "- 2"])
     (simp_all add: round_half_even_def Let_def power_int_minus)

lemma to_double_25: "to_double 25 = 25"
  by (subst to_double_eq [where k = 4])
     (simp_all add: round_half_even_def Let_def power_int_minus)

lemma to_double_65_256: "to_double (65 / 256) = 65 / 256"
  by (subst to_double_eq [where k = "- 2"])
     (simp_all add: round_half_even_def Let_def power_int_minus)

lemma to_double_1625_64: "to_double (1625 / 64) = 1625 / 64"
  by (subst to_double_eq [where k = 4])
     (simp_all add: round_half_even_def Let_def power_int_minus)

lemma to_double_0155: "to_double (155 / 1000) = 5584463537939415 / 36028797018963968"
  by (subst to_double_eq [where k = "- 3"])
     (simp_all add: round_half_even_def Let_def power_int_minus floor_rat_numerals)

text \<open>The double nearest to 0.155 lies just below it, so its exact hundredfold is below
  15.5; the double nearest to that product is 15.5 itself, which \<^verbatim>\<open>Math.round\<close> takes
  up: the export writes 16%.\<close>

lemma percent_of_0155:
  "math_round (to_double (5584463537939415 / 36028797018963968 * 100)) = 16"
  by (subst to_double_eq [where k = 3])
     (simp_all add: round_half_even_def math_round_def Let_def power_int_minus
        floor_rat_numerals)

lemma score_0155_exports_16_percent:
  "csvRow 0 (empty_match\<lparr>confidence_score :=
      Val (5584463537939415 / 36028797018963968)\<rparr>) ! 17 = ''16%''"
proof -
  have cell: "csvRow 0 (empty_match\<lparr>confidence_score :=
      Val (5584463537939415 / 36028797018963968)\<rparr>) ! 17
    = show_int (math_round (to_double
        (num_or (Val (5584463537939415 / 36028797018963968)) 0 * 100))) @ ''%''"
    by (simp add: csvRow_def)
  have score: "num_or (Val (5584463537939415 / 36028797018963968)) 0
    = 5584463537939415 / 36028797018963968"
    by (simp add: num_or_def)
  show ?thesis
    unfolding cell score percent_of_0155 by (simp add: show_int_def)
qed

section \<open>A cell with a double quote\<close>

text \<open>
  Claim C4 says that the export has one row per match under the fixed header and that
  a cell value with a comma in it appears quoted. Every cell is put between double quotes,
  and rows whose cells hold no double quote are read back cell by cell
  (\<open>reparse_line_csvLine\<close>), commas included. A double quote inside a cell is written
  as it is, so it ends the quoted text early: for the material name
  \<^verbatim>\<open>6" pipe, steel\<close> the line begins \<^verbatim>\<open>"1","6" pipe, steel",\<close>, the comma of the
  cell stands outside the quotes and the line cannot be read as quoted cells. In the same
  way two records that differ in where such text stands are exported as the same line.
\<close>

theorem quote_in_cell_unprotects_comma:
  "csvRow 0 (empty_match\<lparr>qa_material_name := Val (''6'' @ CHR 0x22 # '' pipe, steel'')\<rparr>) ! 1
     = ''6'' @ CHR 0x22 # '' pipe, steel''
   \<and> take 21 (csvLine (csvRow 0
        (empty_match\<lparr>qa_material_name := Val (''6'' @ CHR 0x22 # '' pipe, steel'')\<rparr>)))
     = CHR 0x22 # ''1'' @ CHR 0x22 # '','' @ CHR 0x22 # ''6'' @ CHR 0x22 # '' pipe, steel''
        @ CHR 0x22 # '',''
   \<and> reparse_line (csvLine (csvRow 0
        (empty_match\<lparr>qa_material_name := Val (''6'' @ CHR 0x22 # '' pipe, steel'')\<rparr>)))
     = None
   \<and> csvLine (csvRow 0 (empty_match\<lparr>
          qa_material_name := Val (''x'' @ CHR 0x22 # '','' @ CHR 0x22 # ''y''),
          qc_process_step := Val ''z''\<rparr>))
     = csvLine (csvRow 0 (empty_match\<lparr>
          qa_material_name := Val ''x'',
          qc_process_step := Val (''y'' @ CHR 0x22 # '','' @ CHR 0x22 # ''z'')\<rparr>))
   \<and> csvRow 0 (empty_match\<lparr>
          qa_material_name := Val (''x'' @ CHR 0x22 # '','' @ CHR 0x22 # ''y''),
          qc_process_step := Val ''z''\<rparr>) ! 1
     \<noteq> csvRow 0 (empty_match\<lparr>
          qa_material_name := Val ''x'',
          qc_process_step := Val (''y'' @ CHR 0x22 # '','' @ CHR 0x22 # ''z'')\<rparr>) ! 1"
  by (simp add: csvRow_def csvLine_def quoted_def reparse_line_def
      empty_match_def str_or_def yes_no_def truthy_flag_def int_or_def num_or_def
      num_positive_def math_round_def show_int_def amber_tag_def to_double_zero)

section \<open>Exporting and reading back\<close>

text \<open>
  Claim C2 as stated fails twice. A cell is written as it is, so a material name with a
  newline in it makes the export of one record a text of three lines, not two. And the
  confidence score is written as a whole percentage: two records that differ only in
  their scores, the doubles 0.25 and 0.25390625, are exported as the same text, from which
  no reader recovers the score.
\<close>

theorem csv_export_round_trip_counterexample:
  "length [empty_match\<lparr>qa_material_name := Val [CHR ''a'', CHR 0x0A, CHR ''b'']\<rparr>] + 1 = 2
   \<and> length (split (CHR 0x0A)
       (csvContent [empty_match\<lparr>qa_material_name := Val [CHR ''a'', CHR 0x0A, CHR ''b'']\<rparr>])) = 3
   \<and> csvContent [empty_match\<lparr>supplier_description := Val ''bolt'', confidence_score := Val (1 / 4)\<rparr>]
     = csvContent [empty_match\<lparr>supplier_description := Val ''bolt'', confidence_score := Val (65 / 256)\<rparr>]
   \<and> confidence_score (empty_match\<lparr>supplier_description := Val ''bolt'', confidence_score := Val (1 / 4)\<rparr>)
     \<noteq> confidence_score (empty_match\<lparr>supplier_description := Val ''bolt'', confidence_score := Val (65 / 256)\<rparr>)
   \<and> to_double (1 / 4) = 1 / 4 \<and> to_double (65 / 256) = 65 / 256"
proof -
  let ?n = "empty_match\<lparr>qa_material_name := Val [CHR ''a'', CHR 0x0A, CHR ''b'']\<rparr>"
  have "csvRow 0 (empty_match\<lparr>supplier_description := Val ''bolt'', confidence_score := Val (1 / 4)\<rparr>)
      = csvRow 0 (empty_match\<lparr>supplier_description := Val ''bolt'', confidence_score := Val (65 / 256)\<rparr>)"
    by (simp add: csvRow_def num_or_def num_positive_def math_round_def floor_rat_numerals
        to_double_25 to_double_1625_64)
  then have same: "csvContent [empty_match\<lparr>supplier_description := Val ''bolt'', confidence_score := Val (1 / 4)\<rparr>]
     = csvContent [empty_match\<lparr>supplier_description := Val ''bolt'', confidence_score := Val (65 / 256)\<rparr>]"
    by (simp add: csvContent_def csvRows_def enumerate_eq_zip)
  have header: "CHR 0x0A \<notin> set (csvLine csvHeaders)"
    using csvHeaders_plain by (intro csvLine_chars) simp_all
  have "csvContent [?n] = csvLine csvHeaders @ CHR 0x0A # csvLine (csvRow 0 ?n)"
    by (simp add: csvContent_def csvRows_def enumerate_eq_zip)
  then have "split (CHR 0x0A) (csvContent [?n])
      = csvLine csvHeaders # split (CHR 0x0A) (csvLine (csvRow 0 ?n))"
    using header by (simp add: split_at_separator)
  moreover have "length (split (CHR 0x0A) (csvLine (csvRow 0 ?n))) = 2"
    by (simp add: csvRow_def csvLine_def quoted_def
        empty_match_def str_or_def yes_no_def truthy_flag_def int_or_def num_or_def
        num_positive_def math_round_def show_int_def amber_tag_def to_double_zero)
  ultimately have three: "length (split (CHR 0x0A) (csvContent [?n])) = 3"
    by simp
  show ?thesis using same three by (simp add: to_double_quarter to_double_65_256)
qed

text \<open>
  Claim C2, amended. When no cell of the rows contains a newline or a double quote and
  the records are within the ranges of the data model (a label from 1 to 13, a score that
  is a double from 0 to 1), the export of
  \<open>N\<close> match records has exactly \<open>N + 1\<close> lines, the header line and one line per
  match, and reading it back gives the header and the rows cell by cell. The cell of
  \<^verbatim>\<open>qa_material_name\<close> and that of \<^verbatim>\<open>part_number\<close> hold the field's text, the
  empty text when the field is missing or empty; the cell of \<^verbatim>\<open>confidence_score\<close>
  holds, in place of the score, the double nearest to its hundredfold, rounded to a whole
  number and followed by the percent sign.
\<close>

theorem csv_export_round_trip_of_plain_cells:
  assumes "\<forall>row \<in> set (csvRows ms). \<forall>cell \<in> set row.
             CHR 0x0A \<notin> set cell \<and> CHR 0x22 \<notin> set cell"
    and "\<forall>m \<in> set ms. in_data_model m"
  shows "exportQAClassificationCSV (Some \<lparr>matches = Val ms\<rparr>) = Some (csvContent ms)
     \<and> length (split (CHR 0x0A) (csvContent ms)) = length ms + 1
     \<and> reparse_csv (csvContent ms) = map Some (csvHeaders # csvRows ms)
     \<and> (\<forall>i < length ms.
          csvRows ms ! i ! 1 = str_or (qa_material_name (ms ! i)) []
        \<and> csvRows ms ! i ! 5 = str_or (part_number (ms ! i)) []
        \<and> csvRows ms ! i ! 17
            = show_int (math_round (to_double (num_or (confidence_score (ms ! i)) 0 * 100)))
              @ ''%'')"
proof -
  have lines: "split (CHR 0x0A) (csvContent ms) = map csvLine (csvHeaders # csvRows ms)"
    using assms(1) by (intro csv_lines) simp
  have "\<forall>row \<in> set (csvHeaders # csvRows ms).
          row \<noteq> [] \<and> (\<forall>cell \<in> set row. CHR 0x22 \<notin> set cell)"
    using assms(1) csvHeaders_plain csvRows_nonempty [of _ ms]
    by (auto simp: csvHeaders_def)
  then have "\<forall>row \<in> set (csvHeaders # csvRows ms). reparse_line (csvLine row) = Some row"
    by (simp add: reparse_line_csvLine)
  then have again: "reparse_csv (csvContent ms) = map Some (csvHeaders # csvRows ms)"
    unfolding reparse_csv_def lines by simp
  have cells: "\<forall>i < length ms.
          csvRows ms ! i ! 1 = str_or (qa_material_name (ms ! i)) []
        \<and> csvRows ms ! i ! 5 = str_or (part_number (ms ! i)) []
        \<and> csvRows ms ! i ! 17
            = show_int (math_round (to_double (num_or (confidence_score (ms ! i)) 0 * 100)))
              @ ''%''"
    by (simp add: nth_csvRows csvRow_def)
  show ?thesis
    using lines again cells
    by (simp add: exportQAClassificationCSV_def length_csvRows)
qed

theorem csv_export_round_trip_of_plain_cells_witness:
  "length (split (CHR 0x0A) (csvContent
      [empty_match\<lparr>qa_material_name := Val ''bolt, M6'', part_number := Val ''PN-1'',
                   confidence_score := Val (1 / 4)\<rparr>])) = 2
   \<and> the (reparse_csv (csvContent
      [empty_match\<lparr>qa_material_name := Val ''bolt, M6'', part_number := Val ''PN-1'',
                   confidence_score := Val (1 / 4)\<rparr>]) ! 1) ! 1 = ''bolt, M6''
   \<and> the (reparse_csv (csvContent
      [empty_match\<lparr>qa_material_name := Val ''bolt, M6'', part_number := Val ''PN-1'',
                   confidence_score := Val (1 / 4)\<rparr>]) ! 1) ! 5 = ''PN-1''
   \<and> the (reparse_csv (csvContent
      [empty_match\<lparr>qa_material_name := Val ''bolt, M6'', part_number := Val ''PN-1'',
                   confidence_score := Val (1 / 4)\<rparr>]) ! 1) ! 17 = ''25%''"
proof -
  let ?m = "empty_match\<lparr>qa_material_name := Val ''bolt, M6'', part_number := Val ''PN-1'',
                   confidence_score := Val (1 / 4)\<rparr>"
  have row: "csvRows [?m] = [csvRow 0 ?m]"
    by (simp add: csvRows_def enumerate_eq_zip)
  have plain: "\<forall>row \<in> set (csvRows [?m]). \<forall>cell \<in> set row.
             CHR 0x0A \<notin> set cell \<and> CHR 0x22 \<notin> set cell"
    unfolding row
    by (simp add: csvRow_def empty_match_def str_or_def yes_no_def truthy_flag_def
        int_or_def num_or_def num_positive_def math_round_def show_int_def amber_tag_def
        str_text_def floor_rat_numerals to_double_25)
  have score: "\<forall>m \<in> set [?m]. in_data_model m"
    by (simp add: in_data_model_def empty_match_def to_double_quarter)
  note inst = csv_export_round_trip_of_plain_cells [OF plain score]
  have i: "(0::nat) < length [?m]" by simp
  from inst i have cells: "csvRows [?m] ! 0 ! 1 = str_or (qa_material_name ([?m] ! 0)) []
        \<and> csvRows [?m] ! 0 ! 5 = str_or (part_number ([?m] ! 0)) []
        \<and> csvRows [?m] ! 0 ! 17
            = show_int (math_round (to_double (num_or (confidence_score ([?m] ! 0)) 0 * 100)))
              @ ''%''"
    by blast
  from inst have len: "length (split (CHR 0x0A) (csvContent [?m])) = length [?m] + 1"
    and again: "reparse_csv (csvContent [?m]) = map Some (csvHeaders # csvRows [?m])"
    by blast+
  have "the (reparse_csv (csvContent [?m]) ! 1) = csvRows [?m] ! 0"
    unfolding again by (simp add: length_csvRows)
  then show ?thesis
    using cells len
    by (simp add: str_or_def num_or_def math_round_def show_int_def floor_rat_numerals
        to_double_25)
qed

section \<open>Reconnecting the WebSocket\<close>

lemma onclose_schedule:
  "timeouts (onclose st) =
     (if reconnectAttempts st < 5
      then timeouts st @ [(next_timeout st, 2 ^ reconnectAttempts st * 1000)]
      else timeouts st)"
  by (simp add: onclose_def Let_def)

lemma onopen_resets: "reconnectAttempts (onopen st) = 0"
  by (simp add: onopen_def)

lemma length_drop_id: "k \<in> fst ` set xs \<Longrightarrow> length (drop_id k xs) < length xs"
proof (induction xs)
  case Nil
  then show ?case by simp
next
  case (Cons a xs)
  have le: "length (drop_id k xs) \<le> length xs"
    by (simp add: drop_id_def)
  show ?case
  proof (cases "fst a = k")
    case True
    then have "drop_id k (a # xs) = drop_id k xs"
      by (simp add: drop_id_def case_prod_beta)
    with le show ?thesis by simp
  next
    case False
    with Cons.prems have "k \<in> fst ` set xs" by auto
    then have "length (drop_id k xs) < length xs" by (rule Cons.IH)
    moreover from False have "drop_id k (a # xs) = a # drop_id k xs"
      by (simp add: drop_id_def case_prod_beta)
    ultimately show ?thesis by simp
  qed
qed

lemma ws_inv_mounted: "ws_inv ws_mounted"
  by (simp add: ws_inv_def ws_mounted_def connect_def)

lemma ws_inv_opened:
  "ws_inv st \<Longrightarrow> ws_inv (onopen (st\<lparr>sockets := set_ready s OPEN (sockets st)\<rparr>))"
  by (auto simp: ws_inv_def onopen_def set_ready_def)

lemma ws_inv_errored: "ws_inv st \<Longrightarrow> ws_inv (onerror st)"
  by (simp add: ws_inv_def onerror_def)

lemma ws_inv_closed:
  assumes "ws_inv st" and "s \<in> fst ` set (sockets st)"
  shows "ws_inv (onclose (st\<lparr>sockets := drop_id s (sockets st)\<rparr>))"
proof -
  from assms(2) have "length (drop_id s (sockets st)) < length (sockets st)"
    by (rule length_drop_id)
  with assms(1) have "length (drop_id s (sockets st)) = 0 \<and> length (timeouts st) = 0"
    unfolding ws_inv_def by linarith
  then have "drop_id s (sockets st) = []" and "timeouts st = []" by simp_all
  with assms(1) show ?thesis
    by (simp add: ws_inv_def onclose_def Let_def)
qed

lemma ws_inv_timeout:
  assumes "ws_inv st" and "t \<in> fst ` set (timeouts st)"
  shows "ws_inv (timeout_callback (st\<lparr>timeouts := drop_id t (timeouts st)\<rparr>))"
proof -
  from assms(2) have lt: "length (drop_id t (timeouts st)) < length (timeouts st)"
    by (rule length_drop_id)
  with assms(1) have "length (drop_id t (timeouts st)) = 0 \<and> length (sockets st) = 0"
    unfolding ws_inv_def by linarith
  then have "drop_id t (timeouts st) = []" and "sockets st = []" by simp_all
  moreover from lt have "timeouts st \<noteq> []" by auto
  with assms(1) have "reconnectAttempts st < 5" by (simp add: ws_inv_def)
  ultimately show ?thesis
    by (simp add: ws_inv_def timeout_callback_def connect_def)
qed

lemma ws_step_inv:
  assumes "ws_inv st" and "ws_step e st = Some st'" and "e \<noteq> Rerender"
  shows "ws_inv st'"
proof (cases e)
  case (Opened s)
  with assms(2) have "st' = onopen (st\<lparr>sockets := set_ready s OPEN (sockets st)\<rparr>)"
    by (simp add: ws_step_def split: if_splits)
  with assms(1) show ?thesis by (simp add: ws_inv_opened)
next
  case (Errored s)
  with assms(2) have "st' = onerror st"
    by (simp add: ws_step_def split: if_splits)
  with assms(1) show ?thesis by (simp add: ws_inv_errored)
next
  case (Closed s)
  with assms(2) have "s \<in> fst ` set (sockets st)"
    and "st' = onclose (st\<lparr>sockets := drop_id s (sockets st)\<rparr>)"
    by (simp_all add: ws_step_def split: if_splits)
  with assms(1) show ?thesis by (simp add: ws_inv_closed)
next
  case (Timeout t)
  with assms(2) have "t \<in> fst ` set (timeouts st)"
    and "st' = timeout_callback (st\<lparr>timeouts := drop_id t (timeouts st)\<rparr>)"
    by (simp_all add: ws_step_def split: if_splits)
  with assms(1) show ?thesis by (simp add: ws_inv_timeout)
next
  case Rerender
  with assms(3) show ?thesis by simp
qed


lemma ws_run_inv:
  "ws_inv st \<Longrightarrow> Rerender \<notin> set es \<Longrightarrow> ws_run es st = Some st' \<Longrightarrow> ws_inv st'"
proof (induction es arbitrary: st)
  case Nil
  then show ?case by simp
next
  case (Cons e es)
  then obtain s where s: "ws_step e st = Some s" and r: "ws_run es s = Some st'"
    by (auto split: option.splits)
  from Cons.prems(2) have ne: "e \<noteq> Rerender" and rest: "Rerender \<notin> set es" by auto
  from Cons.prems(1) s ne have "ws_inv s" by (rule ws_step_inv)
  then show ?case using rest r by (rule Cons.IH)
qed

text \<open>Without an open and without another run of the effect, every attempt made is one
  more on the counter.\<close>

lemma ws_step_counts:
  assumes "ws_step e st = Some st'" and "\<not> is_Opened e" and "e \<noteq> Rerender"
  shows "reconnects st' + reconnectAttempts st = reconnects st + reconnectAttempts st'"
proof (cases e)
  case (Opened s)
  with assms(2) show ?thesis by (simp add: is_Opened_def)
next
  case (Errored s)
  with assms(1) have "st' = onerror st" by (simp add: ws_step_def split: if_splits)
  then show ?thesis by (simp add: onerror_def)
next
  case (Closed s)
  with assms(1) have "st' = onclose (st\<lparr>sockets := drop_id s (sockets st)\<rparr>)"
    by (simp add: ws_step_def split: if_splits)
  then show ?thesis by (simp add: onclose_def Let_def)
next
  case (Timeout t)
  with assms(1) have "st' = timeout_callback (st\<lparr>timeouts := drop_id t (timeouts st)\<rparr>)"
    by (simp add: ws_step_def split: if_splits)
  then show ?thesis by (simp add: timeout_callback_def connect_def)
next
  case Rerender
  with assms(3) show ?thesis by simp
qed

lemma ws_run_counts:
  "filter is_Opened es = [] \<Longrightarrow> Rerender \<notin> set es \<Longrightarrow> ws_run es st = Some st'
   \<Longrightarrow> reconnects st' + reconnectAttempts st = reconnects st + reconnectAttempts st'"
proof (induction es arbitrary: st)
  case Nil
  then show ?case by simp
next
  case (Cons e es)
  then obtain s where s: "ws_step e st = Some s" and r: "ws_run es s = Some st'"
    by (auto split: option.splits)
  from Cons.prems(1) have ne: "\<not> is_Opened e" and rest: "filter is_Opened es = []"
    by (auto split: if_splits)
  from Cons.prems(2) have nr: "e \<noteq> Rerender" and rest': "Rerender \<notin> set es" by auto
  have "reconnects s + reconnectAttempts st = reconnects st + reconnectAttempts s"
    using s ne nr by (rule ws_step_counts)
  moreover have "reconnects st' + reconnectAttempts s = reconnects s + reconnectAttempts st'"
    using rest rest' r by (rule Cons.IH)
  ultimately show ?case by simp
qed

text \<open>A hook whose effect never runs again keeps the bound: after any events, a run of
  events without an open makes at most 5 reconnects.\<close>

lemma reconnects_bounded_without_rerender:
  assumes "ws_run before ws_mounted = Some st" and "Rerender \<notin> set before"
    and "filter is_Opened failures = []" and "Rerender \<notin> set failures"
    and "ws_run failures st = Some st'"
  shows "reconnects st' \<le> reconnects st + 5"
proof -
  have "ws_inv st" using ws_inv_mounted assms(2,1) by (rule ws_run_inv)
  then have "ws_inv st'" using assms(4,5) by (rule ws_run_inv)
  then have "reconnectAttempts st' \<le> 5" by (simp add: ws_inv_def)
  moreover have "reconnects st' + reconnectAttempts st = reconnects st + reconnectAttempts st'"
    using assms(3,4,5) by (rule ws_run_counts)
  ultimately show ?thesis by simp
qed

text \<open>
  Claim C10 says that after a close a reconnect is scheduled only below 5 attempts, with
  a delay of \<open>2 ^ attempts * 1000\<close> milliseconds, that an open resets the counter, and
  that consecutive failed connections lead to at most 5 reconnects. The first two hold
  (\<open>onclose_schedule\<close>, \<open>onopen_resets\<close>), and the bound holds for a hook whose
  effect runs once (\<open>reconnects_bounded_without_rerender\<close>). On the processing page
  the effect runs again on every render, each time leaving the closing socket and the new
  one to schedule a reconnect of their own against the one counter. With the backend down:
  the status request fails and the page renders (socket 1 is closed, socket 2 created);
  socket 1 reports its error, which sets the error state, and closes, which sets timeout
  1; the page renders again (timeout 1 is cleared, socket 2 closed, socket 3 created);
  sockets 2 and 3 fail and set timeouts 2 and 3. From then on two chains of reconnects
  run side by side: both pass the test at counter 4, and the timeouts reconnect 6 times
  with no socket ever opening.
\<close>

theorem rerender_exceeds_reconnect_bound:
  "ws_run [Rerender, Errored 1, Closed 1, Rerender, Errored 2, Closed 2, Errored 3, Closed 3,
           Timeout 2, Timeout 3, Errored 4, Closed 4, Errored 5, Closed 5,
           Timeout 4, Timeout 5, Errored 6, Closed 6, Errored 7, Closed 7,
           Timeout 6, Timeout 7, Errored 8, Closed 8, Errored 9, Closed 9] ws_mounted
     = Some \<lparr>isConnected = False, ws_error = Some ''WebSocket connection failed'',
         reconnectAttempts = 6, sockets = [], ws_current = Some 9, timeouts = [],
         reconnectTimeoutRef = Some 7, next_socket = 10, next_timeout = 8,
         reconnects = 6\<rparr>
   \<and> filter is_Opened
        [Rerender, Errored 1, Closed 1, Rerender, Errored 2, Closed 2, Errored 3, Closed 3,
         Timeout 2, Timeout 3, Errored 4, Closed 4, Errored 5, Closed 5,
         Timeout 4, Timeout 5, Errored 6, Closed 6, Errored 7, Closed 7,
         Timeout 6, Timeout 7, Errored 8, Closed 8, Errored 9, Closed 9] = []"
  by code_simp

end
